theory Spec2Isabelle
  imports Complex_Main "HOL-Library.Sublist"
begin

section \<open>JavaScript strings and values\<close>

text \<open>
  Strings are lists of 8-bit characters. Case folding acts on the letters A to Z only;
  every regular expression of the source that carries the \<open>i\<close> flag has an ASCII pattern,
  so folding the subject string and matching the lower-case pattern is the same test.
  Numbers that the source adds up as scores are exact rationals here.
\<close>

definition toLowerChar :: "char \<Rightarrow> char" where
  "toLowerChar c =
     (case map_of (zip ''ABCDEFGHIJKLMNOPQRSTUVWXYZ'' ''abcdefghijklmnopqrstuvwxyz'') c of
        Some l \<Rightarrow> l
      | None \<Rightarrow> c)"

definition toLowerCase :: "string \<Rightarrow> string" where
  "toLowerCase s = map toLowerChar s"

fun startsWith :: "string \<Rightarrow> string \<Rightarrow> bool" where
  "startsWith s [] = True"
| "startsWith [] (p # ps) = False"
| "startsWith (c # cs) (p # ps) = (c = p \<and> startsWith cs ps)"

text \<open>\<open>str_includes hay needle\<close> is \<open>hay.includes(needle)\<close>.\<close>

fun str_includes :: "string \<Rightarrow> string \<Rightarrow> bool" where
  "str_includes [] needle = (needle = [])"
| "str_includes (c # cs) needle = (startsWith (c # cs) needle \<or> str_includes cs needle)"

text \<open>
  A value read with \<open>a || b\<close>: \<open>None\<close> stands for \<open>undefined\<close> and \<open>null\<close>, and the
  empty string is falsy as well.
\<close>

definition truthy :: "string option \<Rightarrow> bool" where
  "truthy v = (case v of None \<Rightarrow> False | Some s \<Rightarrow> s \<noteq> [])"

definition or_js :: "string option \<Rightarrow> string option \<Rightarrow> string option" where
  "or_js a b = (if truthy a then a else b)"

definition or_str :: "string option \<Rightarrow> string \<Rightarrow> string" where
  "or_str a d = (case a of None \<Rightarrow> d | Some s \<Rightarrow> if s = [] then d else s)"

definition or_null :: "string option \<Rightarrow> string option" where
  "or_null a = (if truthy a then a else None)"

section \<open>The liveness checker (services/geminiService.ts, checkUrlAlive)\<close>

text \<open>
  \<open>isLikelyImageUrl\<close> tests \<open>/\.(jpe?g|png|webp|gif)(\?|$)/i\<close>: somewhere in the string a
  dot, one of the extensions, and then a question mark or the end of the string.
  \<open>extAt exts s\<close> is that test anchored at the start of \<open>s\<close>.
\<close>

definition extAt :: "string list \<Rightarrow> string \<Rightarrow> bool" where
  "extAt exts s = list_ex (\<lambda>e. s = CHR ''.'' # e \<or> startsWith s (CHR ''.'' # e @ ''?'')) exts"

fun extSomewhere :: "string list \<Rightarrow> string \<Rightarrow> bool" where
  "extSomewhere exts [] = False"
| "extSomewhere exts (c # cs) = (extAt exts (c # cs) \<or> extSomewhere exts cs)"

definition isLikelyImageUrl :: "string \<Rightarrow> bool" where
  "isLikelyImageUrl u =
     (u \<noteq> [] \<and> extSomewhere [''jpg'', ''jpeg'', ''png'', ''webp'', ''gif''] (toLowerCase u))"

text \<open>
  The two network hops of a check. The proxy is asked first; \<open>ProxyJson a ct\<close> is an
  \<open>ok\<close> response whose body has \<open>alive\<close> of truthiness \<open>a\<close> (\<open>None\<close> when the field is
  undefined or the body is falsy) and the content type \<open>ct\<close>. \<open>ProxyThrow\<close> covers a rejected or
  aborted fetch and a body that is not JSON. The direct HEAD request answers with
  \<open>res.ok\<close> and the content-type header, with no response object, or throws.
\<close>

datatype proxy_reply = ProxyThrow | ProxyNotOk | ProxyJson "bool option" "string option"

datatype head_reply = HeadThrow | HeadNoRes | HeadRes bool "string option"

datatype request = ProxyGet string | DirectHead string

record check =
  alive :: bool
  contentType :: "string option"

record network =
  proxy :: "string \<Rightarrow> proxy_reply"
  direct :: "string \<Rightarrow> head_reply"

definition notFoundWords :: "string list" where
  "notFoundWords = [''404'', ''notfound'', ''error'', ''page-not-found'']"

definition looksDead :: "string \<Rightarrow> bool" where
  "looksDead url = list_ex (str_includes (toLowerCase url)) notFoundWords"

definition directCheck :: "network \<Rightarrow> string \<Rightarrow> check" where
  "directCheck n url =
     (case direct n url of
        HeadNoRes \<Rightarrow> \<lparr>alive = False, contentType = None\<rparr>
      | HeadRes ok ct \<Rightarrow> \<lparr>alive = ok, contentType = or_null ct\<rparr>
      | HeadThrow \<Rightarrow> \<lparr>alive = isLikelyImageUrl url, contentType = None\<rparr>)"

text \<open>The result of a check together with the network requests it issued, in order.\<close>

definition checkUrlAlive :: "network \<Rightarrow> string \<Rightarrow> check \<times> request list" where
  "checkUrlAlive n url =
     (if url = [] then (\<lparr>alive = False, contentType = None\<rparr>, [])
      else if looksDead url then (\<lparr>alive = False, contentType = None\<rparr>, [])
      else (case proxy n url of
              ProxyJson (Some a) ct \<Rightarrow> (\<lparr>alive = a, contentType = or_null ct\<rparr>, [ProxyGet url])
            | _ \<Rightarrow> (directCheck n url, [ProxyGet url, DirectHead url])))"

section \<open>The verification proxy (server/verify-server.js)\<close>

text \<open>
  A query parameter parsed by \<open>url.parse(_, true)\<close> is absent, a string, or an array of
  strings when the parameter is repeated.
\<close>

datatype qval = QAbsent | QStr string | QArr "string list"

record query =
  q_url :: qval
  q_u :: qval

text \<open>What the HEAD request of \<open>doHeadCheck\<close> does: a response with its status code and
  content-type header, an error event, a timeout, or an exception while it is set up.\<close>

datatype head_outcome =
    Responded int "string option"
  | ErrorEvent
  | TimedOut
  | SetupThrew

datatype body =
    ErrorBody string
  | AliveOnly bool
  | Full bool int "string option"

record response =
  statusCode :: int
  payload :: body

definition doHeadCheck :: "(string \<Rightarrow> head_outcome) \<Rightarrow> string \<Rightarrow> body" where
  "doHeadCheck head targetUrl =
     (case head targetUrl of
        Responded st ct \<Rightarrow> Full (200 \<le> st \<and> st < 400) st (or_null ct)
      | ErrorEvent \<Rightarrow> AliveOnly False
      | TimedOut \<Rightarrow> AliveOnly False
      | SetupThrew \<Rightarrow> AliveOnly False)"

text \<open>\<open>q.url || q.u\<close>: an absent parameter and the empty string are falsy, an array is truthy.\<close>

definition qtruthy :: "qval \<Rightarrow> bool" where
  "qtruthy v = (case v of QAbsent \<Rightarrow> False | QStr s \<Rightarrow> s \<noteq> [] | QArr xs \<Rightarrow> True)"

definition target_of :: "query \<Rightarrow> qval" where
  "target_of q = (if qtruthy (q_url q) then q_url q else q_u q)"

definition httpPrefixed :: "string \<Rightarrow> bool" where
  "httpPrefixed s = (startsWith (toLowerCase s) ''http://'' \<or> startsWith (toLowerCase s) ''https://'')"

definition server :: "(string \<Rightarrow> head_outcome) \<Rightarrow> query \<Rightarrow> response" where
  "server head q =
     (let target = target_of q in
      if \<not> qtruthy target then
        \<lparr>statusCode = 400, payload = ErrorBody ''missing url parameter''\<rparr>
      else (case target of
              QStr s \<Rightarrow>
                if httpPrefixed s then \<lparr>statusCode = 200, payload = doHeadCheck head s\<rparr>
                else \<lparr>statusCode = 400,
                      payload = ErrorBody ''invalid url parameter, must start with http/https''\<rparr>
            | _ \<Rightarrow> \<lparr>statusCode = 400,
                    payload = ErrorBody ''invalid url parameter, must start with http/https''\<rparr>))"

section \<open>Inspiration search (services/geminiService.ts, findWebInspiration)\<close>

subsection \<open>Text helpers\<close>

text \<open>\<open>xs.slice(0, n)\<close> for an integer \<open>n\<close>: a negative end counts from the end of the array.\<close>

definition slice0 :: "'a list \<Rightarrow> int \<Rightarrow> 'a list" where
  "slice0 xs n = (if n < 0 then take (nat (int (length xs) + n)) xs else take (nat n) xs)"

fun splitOn :: "char \<Rightarrow> string \<Rightarrow> string list" where
  "splitOn d [] = [[]]"
| "splitOn d (c # cs) =
     (if c = d then [] # splitOn d cs
      else (case splitOn d cs of [] \<Rightarrow> [[c]] | p # ps \<Rightarrow> (c # p) # ps))"

definition isSpace :: "char \<Rightarrow> bool" where
  "isSpace c = (c \<in> set [CHR 0x09, CHR 0x0A, CHR 0x0B, CHR 0x0C, CHR 0x0D, CHR '' ''])"

definition trim :: "string \<Rightarrow> string" where
  "trim s = rev (dropWhile isSpace (rev (dropWhile isSpace s)))"

text \<open>\<open>Array.from(new Set(xs))\<close>: the first occurrence of every element, in order.\<close>

fun new_Set :: "'a list \<Rightarrow> 'a list" where
  "new_Set [] = []"
| "new_Set (x # xs) = x # filter (\<lambda>y. y \<noteq> x) (new_Set xs)"

text \<open>
  \<open>text.match(/(https?:\/\/[^\s,]+)/g)\<close>, and the same with \<open>]\<close> and \<open>)\<close> excluded as
  well: all matches from left to right, each one the scheme followed by the longest
  non-empty run of characters that are neither white space nor in \<open>stop\<close>; the search
  resumes after a match, and one character further on where nothing matches.
\<close>

definition schemeLen :: "string \<Rightarrow> nat" where
  "schemeLen s = (if startsWith s ''https://'' then 8 else if startsWith s ''http://'' then 7 else 0)"

definition urlChar :: "char list \<Rightarrow> char \<Rightarrow> bool" where
  "urlChar stop c = (\<not> isSpace c \<and> c \<notin> set stop)"

function matchUrls :: "char list \<Rightarrow> string \<Rightarrow> string list" where
  "matchUrls stop [] = []"
| "matchUrls stop (c # cs) =
     (if schemeLen (c # cs) = 0 \<or> takeWhile (urlChar stop) (drop (schemeLen (c # cs)) (c # cs)) = []
      then matchUrls stop cs
      else (take (schemeLen (c # cs)) (c # cs)
              @ takeWhile (urlChar stop) (drop (schemeLen (c # cs)) (c # cs)))
           # matchUrls stop (dropWhile (urlChar stop) (drop (schemeLen (c # cs)) (c # cs))))"
  by pat_completeness auto
termination
proof (relation "measure (\<lambda>(stop, s). length s)")
  show "wf (measure (\<lambda>(stop, s). length s))" by simp
next
  fix stop :: "char list" and c :: char and cs :: string
  show "((stop, cs), (stop, c # cs)) \<in> measure (\<lambda>(stop, s). length s)" by simp
next
  fix stop :: "char list" and c :: char and cs :: string
  assume "\<not> (schemeLen (c # cs) = 0
      \<or> takeWhile (urlChar stop) (drop (schemeLen (c # cs)) (c # cs)) = [])"
  then have k: "0 < schemeLen (c # cs)" by simp
  have "length (dropWhile (urlChar stop) (drop (schemeLen (c # cs)) (c # cs)))
      \<le> length (drop (schemeLen (c # cs)) (c # cs))"
    by (rule length_dropWhile_le)
  also have "\<dots> < length (c # cs)" using k by simp
  finally show "((stop, dropWhile (urlChar stop) (drop (schemeLen (c # cs)) (c # cs))), (stop, c # cs))
      \<in> measure (\<lambda>(stop, s). length s)" by simp
qed

text \<open>
  \<open>text.match(/\{[\s\S]*\}|\[[\s\S]*\]/)\<close>: the leftmost position that starts a match,
  trying the brace alternative first there; the star is greedy, so the match runs to the
  last closing character.
\<close>

definition upToLast :: "char \<Rightarrow> string \<Rightarrow> string" where
  "upToLast d cs = rev (dropWhile (\<lambda>c. c \<noteq> d) (rev cs))"

fun jsonSpan :: "string \<Rightarrow> string option" where
  "jsonSpan [] = None"
| "jsonSpan (c # cs) =
     (if c = CHR ''{'' \<and> CHR ''}'' \<in> set cs then Some (c # upToLast (CHR ''}'') cs)
      else if c = CHR ''['' \<and> CHR '']'' \<in> set cs then Some (c # upToLast (CHR '']'') cs)
      else jsonSpan cs)"

fun digits :: "nat \<Rightarrow> string" where
  "digits n = (if n < 10 then [''0123456789'' ! n]
               else digits (n div 10) @ [''0123456789'' ! (n mod 10)])"

declare digits.simps [simp del]

subsection \<open>The world outside the function\<close>

text \<open>
  What a collaborator call does: it throws (an \<open>Error\<close> with a message, or some other
  value) or returns.
\<close>

datatype thrown = ErrorMsg string | NotAnError

datatype 'a reply = Throws thrown | Returns 'a

record WebInspiration =
  uri :: string
  title :: string
  source :: string
  previewUrl :: string
  matchReason :: "string option"

text \<open>A photo of the stock-photo response, a citation chunk's \<open>web\<close> part, and an element of
  the array parsed from the fallback text. Property values are strings or missing.\<close>

record src =
  large :: "string option"
  medium :: "string option"
  original :: "string option"

record photo =
  p_url :: "string option"
  p_photographer_url :: "string option"
  p_alt :: "string option"
  p_photographer :: "string option"
  p_src :: "src option"

datatype pexels_reply = PexThrow | PexNotOk | PexNoPhotos | PexPhotos "photo option list"

record web =
  w_uri :: "string option"
  w_title :: "string option"
  w_image :: "string option"
  w_imageUrl :: "string option"
  w_ogImage :: "string option"
  w_matchReason :: "string option"

record raw =
  r_url :: "string option"
  r_uri :: "string option"
  r_page :: "string option"
  r_pageUrl :: "string option"
  r_title :: "string option"
  r_name :: "string option"
  r_pageTitle :: "string option"
  r_source :: "string option"
  r_imageUrl :: "string option"
  r_img :: "string option"
  r_image :: "string option"
  r_thumbnail :: "string option"
  r_matchReason :: "string option"
  r_match :: "string option"

text \<open>A parsed JSON value: an array, whose elements are objects or \<open>null\<close>, or anything else.\<close>

datatype json = JArray "raw option list" | JOther

text \<open>
  The environment of one invocation. \<open>hostname u\<close> is \<open>new URL(u).hostname\<close>, \<open>None\<close> when
  the constructor throws; \<open>JSON_parse\<close> is \<open>None\<close> when \<open>JSON.parse\<close> throws. \<open>PEXELS_KEY\<close> is
  what \<open>getPexelsKey()\<close> returns, \<open>apiReady\<close> says whether \<open>initializeGeminiAPI\<close> has run.
  The replies are those of the image description call, the stock-photo request, the
  grounded search call (its grounding chunks, each with or without a \<open>web\<close> part) and the
  fallback call. The prompts and the query sent out do not influence the model's replies
  here, so \<open>searchQuery\<close> and \<open>modifiers\<close>, which only feed them, are left out.
\<close>

record world =
  net :: network
  hostname :: "string \<Rightarrow> string option"
  encodeURIComponent :: "string \<Rightarrow> string"
  JSON_parse :: "string \<Rightarrow> json option"
  APIFLASH_KEY :: "string option"
  PEXELS_KEY :: "string option"
  apiReady :: bool
  describeReply :: "string option reply"
  pexelsReply :: pexels_reply
  searchReply :: "web option list reply"
  fallbackReply :: "string option reply"

definition preferredHosts :: "string list" where
  "preferredHosts = [''dezeen.com'', ''archdaily.com'', ''unsplash.com'', ''pexels.com'', ''architizer.com'']"

subsection \<open>The search intent\<close>

text \<open>\<open>result.text?.trim() || ''\<close>.\<close>

definition textOf :: "string option \<Rightarrow> string" where
  "textOf t = (case t of None \<Rightarrow> [] | Some s \<Rightarrow> trim s)"

definition attributeTags :: "string option \<Rightarrow> string list" where
  "attributeTags text =
     (let descText = textOf text;
          lines = filter (\<lambda>l. l \<noteq> []) (map trim (splitOn (CHR 0x0A) descText));
          tagsLine = (if 2 < length lines then lines ! 2 else [])
      in if tagsLine = [] then []
         else filter (\<lambda>s. s \<noteq> []) (map trim (splitOn (CHR '','') tagsLine)))"

subsection \<open>Stock photos\<close>

definition mapPhoto :: "photo \<Rightarrow> WebInspiration" where
  "mapPhoto p =
     \<lparr>uri = or_str (or_js (p_url p) (p_photographer_url p)) [],
      title = or_str (p_alt p) (''Pexels - '' @ or_str (p_photographer p) ''photo''),
      source = ''pexels.com'',
      previewUrl = (case p_src p of
                      None \<Rightarrow> []
                    | Some s \<Rightarrow> or_str (or_js (or_js (large s) (medium s)) (original s)) []),
      matchReason = None\<rparr>"

definition mapped :: "photo option list \<Rightarrow> WebInspiration list" where
  "mapped photos =
     filter (\<lambda>p. previewUrl p \<noteq> [] \<and> uri p \<noteq> []) (List.map_filter (map_option mapPhoto) photos)"

text \<open>A \<open>null\<close> among the photos makes the mapping throw, which the function catches.\<close>

definition searchPexels :: "world \<Rightarrow> int \<Rightarrow> WebInspiration list option" where
  "searchPexels w perPage =
     (if \<not> truthy (PEXELS_KEY w) then None
      else (case pexelsReply w of
              PexThrow \<Rightarrow> None
            | PexNotOk \<Rightarrow> None
            | PexNoPhotos \<Rightarrow> None
            | PexPhotos photos \<Rightarrow>
                if list_ex (\<lambda>p. p = None) photos then None
                else if mapped photos = [] then None
                else Some (slice0 (mapped photos) perPage)))"

subsection \<open>Validation and scoring\<close>

definition snapUrl :: "world \<Rightarrow> string \<Rightarrow> string \<Rightarrow> string" where
  "snapUrl w key u =
     ''https://api.apiflash.com/v1/urltoimage?access_key='' @ key @ ''&url=''
       @ encodeURIComponent w u @ ''&format=jpeg&quality=80&thumbnail_width=800''"

text \<open>
  The liveness block that both paths run for a candidate: the image URL that is kept,
  the liveness and the content type after the up to three checks, and the URLs that were
  handed to \<open>checkUrlAlive\<close>, in order.
\<close>

record live =
  imageUrl :: string
  nowAlive :: bool
  nowType :: "string option"
  checked :: "string list"

definition liveness :: "world \<Rightarrow> WebInspiration \<Rightarrow> live" where
  "liveness w item =
     (let firstCheck = fst (checkUrlAlive (net w) (previewUrl item));
          l1 = \<lparr>imageUrl = previewUrl item, nowAlive = alive firstCheck,
                nowType = contentType firstCheck, checked = [previewUrl item]\<rparr>;
          l2 = (if \<not> nowAlive l1 \<and> uri item \<noteq> [] then
                  (let pageCheck = fst (checkUrlAlive (net w) (uri item)) in
                   l1\<lparr>nowAlive := alive pageCheck,
                      nowType := or_js (nowType l1) (contentType pageCheck),
                      checked := checked l1 @ [uri item]\<rparr>)
                else l1)
      in (case APIFLASH_KEY w of
            None \<Rightarrow> l2
          | Some key \<Rightarrow>
              if \<not> nowAlive l2 \<and> uri item \<noteq> [] \<and> key \<noteq> [] then
                (let snap = snapUrl w key (uri item);
                     snapCheck = fst (checkUrlAlive (net w) snap)
                 in if alive snapCheck then
                      \<lparr>imageUrl = snap, nowAlive = True,
                       nowType = or_js (contentType snapCheck) (nowType l2),
                       checked = checked l2 @ [snap]\<rparr>
                    else l2\<lparr>checked := checked l2 @ [snap]\<rparr>)
              else l2))"

definition hay :: "WebInspiration \<Rightarrow> string" where
  "hay item =
     toLowerCase (title item @ '' '' @ uri item @ '' '' @ previewUrl item @ '' ''
                  @ (case matchReason item of None \<Rightarrow> ''undefined'' | Some m \<Rightarrow> m))"

text \<open>The two nested \<open>forEach\<close> loops over the tags and over the words of a tag; \<open>wt\<close> is the
  amount a word adds (0.5 in the grounded path, 0.6 in \<open>scoreFor\<close>).\<close>

definition addPart :: "rat \<Rightarrow> string \<Rightarrow> string \<Rightarrow> rat \<Rightarrow> rat" where
  "addPart wt h p score = (if p \<noteq> [] \<and> str_includes h p then score + wt else score)"

definition addTag :: "rat \<Rightarrow> string \<Rightarrow> string \<Rightarrow> rat \<Rightarrow> rat" where
  "addTag wt h tag score =
     (if tag = [] then score
      else fold (addPart wt h) (splitOn (CHR '' '') tag)
             (if str_includes h tag then score + 2 else score))"

definition tagScore :: "rat \<Rightarrow> string \<Rightarrow> string list \<Rightarrow> rat" where
  "tagScore wt h tagMatchers = fold (addTag wt h) tagMatchers 0"

definition isImageType :: "string option \<Rightarrow> bool" where
  "isImageType ct = (case ct of None \<Rightarrow> False
                     | Some c \<Rightarrow> c \<noteq> [] \<and> str_includes (toLowerCase c) ''image/'')"

definition isPdf :: "string option \<Rightarrow> bool" where
  "isPdf ct = (case ct of None \<Rightarrow> False | Some c \<Rightarrow> c \<noteq> [] \<and> str_includes (toLowerCase c) ''pdf'')"

text \<open>\<open>new URL(item.uri).hostname\<close> contains a preferred host; false when the URL does not parse.\<close>

definition trustedHost :: "world \<Rightarrow> string \<Rightarrow> bool" where
  "trustedHost w u = (case hostname w u of None \<Rightarrow> False
                      | Some host \<Rightarrow> list_ex (str_includes host) preferredHosts)"

record validated =
  v_item :: WebInspiration
  v_score :: rat
  v_alive :: bool
  v_contentType :: "string option"

definition validateGrounded :: "world \<Rightarrow> string list \<Rightarrow> WebInspiration \<Rightarrow> validated" where
  "validateGrounded w tagMatchers item =
     (let l = liveness w item;
          s0 = tagScore (1 / 2) (hay item) tagMatchers;
          s1 = (if isLikelyImageUrl (imageUrl l) then s0 + 12 / 10 else s0);
          s2 = (if isImageType (nowType l) then s1 + 15 / 10 else s1);
          s3 = (if trustedHost w (uri item) then s2 + 15 / 10 else s2);
          s4 = (if nowAlive l then s3 + 2 else s3)
      in \<lparr>v_item = item\<lparr>previewUrl := imageUrl l\<rparr>,
          v_score = s4,
          v_alive = (if isPdf (nowType l) then False else nowAlive l),
          v_contentType = nowType l\<rparr>)"

record scored =
  s_item :: WebInspiration
  s_score :: rat

definition scoreFor :: "world \<Rightarrow> string list \<Rightarrow> WebInspiration \<Rightarrow> rat" where
  "scoreFor w tagMatchers item =
     (let s0 = tagScore (6 / 10) (hay item) tagMatchers;
          s1 = (if previewUrl item \<noteq> []
                   \<and> extSomewhere [''jpg'', ''jpeg'', ''png'', ''webp''] (toLowerCase (previewUrl item))
                then s0 + 1 else s0)
      in if trustedHost w (uri item) then s1 + 15 / 10 else s1)"

definition validateFallback :: "world \<Rightarrow> scored \<Rightarrow> validated" where
  "validateFallback w i =
     (let l = liveness w (s_item i);
          s0 = s_score i;
          s1 = (if isLikelyImageUrl (imageUrl l) then s0 + 12 / 10 else s0);
          s2 = (if isImageType (nowType l) then s1 + 15 / 10 else s1);
          s3 = (if nowAlive l then s2 + 2 else s2)
      in \<lparr>v_item = (s_item i)\<lparr>previewUrl := imageUrl l\<rparr>,
          v_score = s3,
          v_alive = (if isPdf (nowType l) then False else nowAlive l),
          v_contentType = nowType l\<rparr>)"

definition hostPreferred :: "string \<Rightarrow> bool" where
  "hostPreferred u = list_ex (str_includes u) preferredHosts"

definition accepted :: "validated \<Rightarrow> bool" where
  "accepted i = ((v_alive i \<and> isImageType (v_contentType i)) \<or> 2 \<le> v_score i
                 \<or> (hostPreferred (uri (v_item i)) \<and> v_alive i))"

text \<open>Filter, stable sort by descending score, cut to \<open>count\<close>; the caller then strips the
  scoring fields.\<close>

definition filtered :: "int \<Rightarrow> validated list \<Rightarrow> validated list" where
  "filtered count vs = slice0 (sort_key (\<lambda>i. - v_score i) (filter accepted vs)) count"

subsection \<open>The grounded-search path\<close>

definition microlink :: "string \<Rightarrow> string" where
  "microlink u = ''https://i.microlink.io/'' @ u"

definition fromChunk :: "world \<Rightarrow> web \<Rightarrow> WebInspiration" where
  "fromChunk w c =
     (let u = or_str (w_uri c) [];
          possibleImage = or_js (or_js (w_image c) (w_imageUrl c)) (w_ogImage c)
      in \<lparr>uri = u,
          title = or_str (w_title c) [],
          source = (case hostname w u of None \<Rightarrow> u | Some h \<Rightarrow> h),
          previewUrl = (if truthy possibleImage then or_str possibleImage []
                        else if truthy (APIFLASH_KEY w) then snapUrl w (or_str (APIFLASH_KEY w) []) u
                        else microlink u),
          matchReason = Some (or_str (w_matchReason c) [])\<rparr>)"

definition rawCandidates :: "world \<Rightarrow> web option list \<Rightarrow> WebInspiration list" where
  "rawCandidates w chunks =
     map (fromChunk w)
       (filter (\<lambda>c. truthy (w_uri c) \<and> truthy (w_title c)) (List.map_filter id chunks))"

definition groundedValidated :: "world \<Rightarrow> string list \<Rightarrow> web option list \<Rightarrow> validated list" where
  "groundedValidated w tags chunks =
     map (validateGrounded w (map toLowerCase tags)) (rawCandidates w chunks)"

definition groundedPath :: "world \<Rightarrow> int \<Rightarrow> string list \<Rightarrow> web option list \<Rightarrow> WebInspiration list" where
  "groundedPath w count tags chunks = map v_item (filtered count (groundedValidated w tags chunks))"

subsection \<open>The free-text fallback path\<close>

definition noRaw :: raw where
  "noRaw = \<lparr>r_url = None, r_uri = None, r_page = None, r_pageUrl = None, r_title = None,
            r_name = None, r_pageTitle = None, r_source = None, r_imageUrl = None, r_img = None,
            r_image = None, r_thumbnail = None, r_matchReason = None, r_match = None\<rparr>"

text \<open>The last resort when \<open>JSON.parse\<close> throws: objects made from the first \<open>count\<close> URLs
  found in the text, without repetitions, titled \<open>Result 1\<close>, \<open>Result 2\<close> and so on.\<close>

definition fromUrl :: "world \<Rightarrow> string \<times> nat \<Rightarrow> raw" where
  "fromUrl w ui =
     noRaw\<lparr>r_url := Some (fst ui),
           r_title := Some (''Result '' @ digits (snd ui + 1)),
           r_imageUrl := Some (fst ui),
           r_source := Some (case hostname w (fst ui) of None \<Rightarrow> fst ui | Some h \<Rightarrow> h)\<rparr>"

definition extracted :: "world \<Rightarrow> int \<Rightarrow> string \<Rightarrow> raw list" where
  "extracted w count text =
     (let urls = new_Set (slice0 (matchUrls '','' text) count)
      in map (fromUrl w) (zip urls [0 ..< length urls]))"

definition jsonText :: "string \<Rightarrow> string" where
  "jsonText text = (case jsonSpan text of Some m \<Rightarrow> m | None \<Rightarrow> text)"

definition parsed :: "world \<Rightarrow> int \<Rightarrow> string \<Rightarrow> json" where
  "parsed w count text =
     (case JSON_parse w (jsonText text) of
        Some v \<Rightarrow> v
      | None \<Rightarrow> JArray (map Some (extracted w count text)))"

definition fromRaw :: "world \<Rightarrow> raw \<Rightarrow> WebInspiration" where
  "fromRaw w r =
     \<lparr>uri = or_str (or_js (or_js (or_js (r_url r) (r_uri r)) (r_page r)) (r_pageUrl r)) [],
      title = or_str (or_js (or_js (r_title r) (r_name r)) (r_pageTitle r)) ''Inspiration'',
      source = (if truthy (r_source r) then or_str (r_source r) []
                else if truthy (or_js (r_url r) (r_uri r)) then
                  (case hostname w (or_str (or_js (r_url r) (r_uri r)) []) of
                     None \<Rightarrow> ''unknown''
                   | Some h \<Rightarrow> h)
                else ''unknown''),
      previewUrl = or_str (or_js (or_js (or_js (r_imageUrl r) (r_img r)) (r_image r)) (r_thumbnail r))
                     (if truthy (r_url r) then microlink (or_str (r_url r) []) else []),
      matchReason = Some (or_str (or_js (r_matchReason r) (r_match r)) [])\<rparr>"

definition inspirations :: "world \<Rightarrow> raw list \<Rightarrow> WebInspiration list" where
  "inspirations w rs = filter (\<lambda>i. uri i \<noteq> []) (map (fromRaw w) rs)"

definition ranked :: "world \<Rightarrow> string list \<Rightarrow> WebInspiration list \<Rightarrow> scored list" where
  "ranked w tags is =
     sort_key (\<lambda>i. - s_score i)
       (map (\<lambda>i. \<lparr>s_item = i, s_score = scoreFor w (map toLowerCase tags) i\<rparr>) is)"

text \<open>Supplementary URLs: one step of the \<open>forEach\<close> over the extra URLs, and the whole top-up.\<close>

definition pushExtra :: "world \<Rightarrow> int \<Rightarrow> string \<Rightarrow> scored list \<Rightarrow> scored list" where
  "pushExtra w count u acc =
     (if count \<le> int (length acc) then acc
      else if list_ex (\<lambda>x. uri (s_item x) = u) acc then acc
      else acc @ [\<lparr>s_item = \<lparr>uri = u, title = u,
                               source = (case hostname w u of None \<Rightarrow> u | Some h \<Rightarrow> h),
                               previewUrl = u, matchReason = Some []\<rparr>,
                    s_score = 0\<rparr>])"

definition topUp :: "world \<Rightarrow> int \<Rightarrow> string \<Rightarrow> scored list \<Rightarrow> scored list" where
  "topUp w count text acc =
     (if int (length acc) < count then
        fold (pushExtra w count)
          (filter (\<lambda>u. u \<noteq> []) (new_Set (slice0 (matchUrls '',])'' text) (count * 3)))) acc
      else acc)"

definition fallbackValidated :: "world \<Rightarrow> int \<Rightarrow> string list \<Rightarrow> string \<Rightarrow> raw list \<Rightarrow> validated list" where
  "fallbackValidated w count tags text rs =
     map (validateFallback w) (topUp w count text (ranked w tags (inspirations w rs)))"

text \<open>The body of the inner \<open>try\<close>; its \<open>catch\<close> returns the empty list, which is what a
  throwing fallback call and a \<open>null\<close> element of the parsed array (a property read of
  \<open>null\<close> throws) lead to.\<close>

definition fallbackPath :: "world \<Rightarrow> int \<Rightarrow> string list \<Rightarrow> WebInspiration list" where
  "fallbackPath w count tags =
     (case fallbackReply w of
        Throws e \<Rightarrow> []
      | Returns t \<Rightarrow>
          (let text = textOf t in
           case parsed w count text of
             JOther \<Rightarrow> []
           | JArray elems \<Rightarrow>
               if elems = [] then []
               else if list_ex (\<lambda>e. e = None) elems then []
               else map v_item
                      (filtered count (fallbackValidated w count tags text (List.map_filter id elems)))))"

subsection \<open>The whole function\<close>

datatype stage = Describe | StockPhotos | GroundedSearch | FallbackText

datatype error = Error string

text \<open>The outer \<open>catch\<close> wraps what was thrown.\<close>

definition rethrow :: "thrown \<Rightarrow> error" where
  "rethrow t = (case t of
                  ErrorMsg m \<Rightarrow> Error (''Failed to find inspiration: '' @ m)
                | NotAnError \<Rightarrow> Error ''An unknown error occurred while finding inspiration.'')"

definition notInitialized :: thrown where
  "notInitialized =
     ErrorMsg ''Gemini API not initialized. Add gemini API key in AI model configuration panel''"

text \<open>The stock-photo attempt of the main body: the list to return, if this stage settles it.\<close>

definition pexResults :: "world \<Rightarrow> int \<Rightarrow> WebInspiration list option" where
  "pexResults w count =
     (if truthy (PEXELS_KEY w) then
        (case searchPexels w count of
           None \<Rightarrow> None
         | Some r \<Rightarrow> if min 1 count \<le> int (length r) then Some (slice0 r count) else None)
      else None)"

text \<open>The result, or the error thrown to the caller, with the collaborator calls made, in order.\<close>

definition findWebInspiration :: "world \<Rightarrow> int \<Rightarrow> (error + WebInspiration list) \<times> stage list" where
  "findWebInspiration w count =
     (if \<not> apiReady w then (Inl (rethrow notInitialized), [])
      else (case describeReply w of
              Throws e \<Rightarrow> (Inl (rethrow e), [Describe])
            | Returns text \<Rightarrow>
                (let tags = attributeTags text;
                     before = Describe # (if truthy (PEXELS_KEY w) then [StockPhotos] else [])
                 in case pexResults w count of
                      Some r \<Rightarrow> (Inr r, before)
                    | None \<Rightarrow>
                        (case searchReply w of
                           Throws e \<Rightarrow> (Inl (rethrow e), before @ [GroundedSearch])
                         | Returns chunks \<Rightarrow>
                             if chunks \<noteq> [] then
                               (Inr (groundedPath w count tags chunks),
                                before @ [GroundedSearch])
                             else
                               (Inr (fallbackPath w count tags),
                                before @ [GroundedSearch, FallbackText])))))"

section \<open>Reference notions for the claims\<close>

text \<open>
  The uris that each source hands to the pipeline: those of the usable stock photos, of
  the usable citation chunks, and of the array that \<open>JSON.parse\<close> yields for the fallback text.
\<close>

definition stockUris :: "world \<Rightarrow> string list" where
  "stockUris w = (case pexelsReply w of PexPhotos photos \<Rightarrow> map uri (mapped photos) | _ \<Rightarrow> [])"

definition citedUris :: "world \<Rightarrow> string list" where
  "citedUris w = (case searchReply w of Returns chunks \<Rightarrow> map uri (rawCandidates w chunks) | Throws e \<Rightarrow> [])"

definition parsedUris :: "world \<Rightarrow> string list" where
  "parsedUris w =
     (case fallbackReply w of
        Throws e \<Rightarrow> []
      | Returns t \<Rightarrow>
          (case JSON_parse w (jsonText (textOf t)) of
             Some (JArray elems) \<Rightarrow> map uri (inspirations w (List.map_filter id elems))
           | _ \<Rightarrow> []))"

text \<open>
  What the nested loops add for one tag: 2 when the tag occurs in the haystack, and \<open>wt\<close>
  for every non-empty word of the tag that occurs there, whether or not the whole tag does.
\<close>

definition tagValue :: "rat \<Rightarrow> string \<Rightarrow> string \<Rightarrow> rat" where
  "tagValue wt h tag =
     (if tag = [] then 0
      else (if str_includes h tag then 2 else 0)
           + wt * of_nat (length (filter (\<lambda>p. p \<noteq> [] \<and> str_includes h p) (splitOn (CHR '' '') tag))))"




section \<open>Concrete environments\<close>

text \<open>Small environments on which the theorems below are exercised.\<close>

definition aliasQuery :: query where
  "aliasQuery = \<lparr>q_url = QAbsent, q_u = QStr ''http://example.com/a.png''\<rparr>"

definition okHead :: "string \<Rightarrow> head_outcome" where
  "okHead u = Responded 200 (Some ''image/png'')"

definition liveNet :: network where
  "liveNet = \<lparr>proxy = (\<lambda>u. ProxyJson (Some True) (Some ''image/jpeg'')), direct = (\<lambda>u. HeadThrow)\<rparr>"

definition quietWorld :: world where
  "quietWorld =
     \<lparr>net = liveNet, hostname = (\<lambda>u. None), encodeURIComponent = (\<lambda>u. u),
      JSON_parse = (\<lambda>s. None), APIFLASH_KEY = None, PEXELS_KEY = None, apiReady = True,
      describeReply = Returns (Some ''concrete tower''), pexelsReply = PexThrow,
      searchReply = Returns [], fallbackReply = Returns None\<rparr>"

definition page :: "string \<Rightarrow> string \<Rightarrow> web" where
  "page u t = \<lparr>w_uri = Some u, w_title = Some t, w_image = None, w_imageUrl = None,
               w_ogImage = None, w_matchReason = None\<rparr>"

definition onePhoto :: photo where
  "onePhoto =
     \<lparr>p_url = Some ''https://www.pexels.com/photo/1'', p_photographer_url = None,
      p_alt = Some ''Tower'', p_photographer = None,
      p_src = Some \<lparr>large = Some ''https://images.pexels.com/1.jpeg'', medium = None,
                     original = None\<rparr>\<rparr>"

definition stockWorld :: "photo option list \<Rightarrow> world" where
  "stockWorld photos = quietWorld\<lparr>PEXELS_KEY := Some ''key'', pexelsReply := PexPhotos photos\<rparr>"

definition failingSearch :: world where
  "failingSearch = quietWorld\<lparr>searchReply := Throws (ErrorMsg ''quota exceeded'')\<rparr>"

definition brokenStages :: world where
  "brokenStages = quietWorld\<lparr>PEXELS_KEY := Some ''key'', pexelsReply := PexThrow,
                             fallbackReply := Throws (ErrorMsg ''overloaded'')\<rparr>"

definition twiceCited :: world where
  "twiceCited = quietWorld\<lparr>searchReply :=
     Returns [Some (page ''https://example.com/tower'' ''Tower''),
              Some (page ''https://example.com/tower'' ''Tower again'')]\<rparr>"

definition harvestWorld :: world where
  "harvestWorld = quietWorld\<lparr>fallbackReply :=
     Returns (Some ''try https://a.org/x.png, https://a.org/x.png and (https://b.org/y.jpg)'')\<rparr>"

definition pdfWorld :: world where
  "pdfWorld = quietWorld
     \<lparr>net := \<lparr>proxy = (\<lambda>u. ProxyJson (Some True) (Some ''application/pdf'')), direct = (\<lambda>u. HeadThrow)\<rparr>,
      searchReply := Returns [Some (page ''https://example.com/report'' ''Annual report'')]\<rparr>"







definition concreteItem :: WebInspiration where
  "concreteItem = \<lparr>uri = ''https://example.com/house'', title = ''Concrete apartment building'',
                    source = ''example.com'', previewUrl = ''https://example.com/house.jpg'',
                    matchReason = Some ''brutalist concrete''\<rparr>"

section \<open>Facts about strings\<close>

lemma startsWith_iff: "startsWith s p \<longleftrightarrow> (\<exists>r. s = p @ r)"
  by (induction s p rule: startsWith.induct) auto

lemma str_includes_iff: "str_includes s n \<longleftrightarrow> (\<exists>a b. s = a @ n @ b)"
proof (induction s)
  case Nil
  then show ?case by auto
next
  case (Cons c cs)
  show ?case
  proof
    assume "str_includes (c # cs) n"
    then consider "startsWith (c # cs) n" | "str_includes cs n" by auto
    then show "\<exists>a b. c # cs = a @ n @ b"
    proof cases
      case 1
      then obtain r where "c # cs = n @ r" by (auto simp: startsWith_iff)
      then have "c # cs = [] @ n @ r" by simp
      then show ?thesis by blast
    next
      case 2
      then obtain a b where "cs = a @ n @ b" using Cons.IH by blast
      then have "c # cs = (c # a) @ n @ b" by simp
      then show ?thesis by blast
    qed
  next
    assume "\<exists>a b. c # cs = a @ n @ b"
    then obtain a b where ab: "c # cs = a @ n @ b" by blast
    show "str_includes (c # cs) n"
    proof (cases a)
      case Nil
      with ab have "startsWith (c # cs) n" by (auto simp: startsWith_iff)
      then show ?thesis by simp
    next
      case (Cons a0 as)
      with ab have "cs = as @ n @ b" by simp
      then have "str_includes cs n" using Cons.IH by blast
      then show ?thesis by simp
    qed
  qed
qed

section \<open>The liveness short-circuit\<close>

text \<open>
  Claim C4. A URL that contains, in any letter case, one of the substrings \<open>404\<close>,
  \<open>notfound\<close>, \<open>error\<close> or \<open>page-not-found\<close> is reported not alive by \<open>checkUrlAlive\<close>, and
  the check issues no network request at all, whatever the proxy and the direct request
  would have answered for it.
\<close>

theorem checkUrlAlive_short_circuit:
  assumes "url = pre @ mid @ post"
    and "toLowerCase mid \<in> {''404'', ''notfound'', ''error'', ''page-not-found''}"
  shows "checkUrlAlive n url = (\<lparr>alive = False, contentType = None\<rparr>, [])"
proof -
  have "toLowerCase url = toLowerCase pre @ toLowerCase mid @ toLowerCase post"
    using assms(1) by (simp add: toLowerCase_def)
  then have "str_includes (toLowerCase url) (toLowerCase mid)"
    unfolding str_includes_iff by blast
  moreover have "toLowerCase mid \<in> set notFoundWords"
    using assms(2) by (simp add: notFoundWords_def)
  ultimately have "looksDead url"
    unfolding looksDead_def list_ex_iff by blast
  then show ?thesis by (simp add: checkUrlAlive_def)
qed

theorem checkUrlAlive_short_circuit_witness:
  "checkUrlAlive \<lparr>proxy = (\<lambda>u. ProxyJson (Some True) (Some ''image/jpeg'')),
                  direct = (\<lambda>u. HeadRes True (Some ''image/jpeg''))\<rparr>
     ''https://blog.example.com/404-Error-architecture.jpg''
   = (\<lparr>alive = False, contentType = None\<rparr>, [])"
proof -
  have split: "''https://blog.example.com/404-Error-architecture.jpg''
      = ''https://blog.example.com/404-'' @ ''Error'' @ ''-architecture.jpg''"
    by simp
  have low: "toLowerCase ''Error'' \<in> {''404'', ''notfound'', ''error'', ''page-not-found''}"
    by (simp add: toLowerCase_def toLowerChar_def)
  show ?thesis
    by (rule checkUrlAlive_short_circuit [OF split low])
qed

section \<open>The verification proxy's contract\<close>

lemma httpPrefixed_example: "httpPrefixed ''http://example.com/a.png''"
  by (simp add: httpPrefixed_def toLowerCase_def toLowerChar_def)

text \<open>
  Claim C9 as stated fails: a request without a \<open>url\<close> parameter is answered with status
  200 when it carries a well-formed \<open>u\<close> parameter, which the server reads in its place.
\<close>

theorem server_alias_counterexample:
  "q_url aliasQuery = QAbsent \<and> statusCode (server okHead aliasQuery) = 200"
  by (simp add: aliasQuery_def server_def target_of_def qtruthy_def httpPrefixed_example)

text \<open>
  Claim C9, amended. The target of a request is its \<open>url\<close> parameter, or its \<open>u\<close>
  parameter when \<open>url\<close> is absent or empty. Unless the target is a single string that
  begins with \<open>http://\<close> or \<open>https://\<close> in any letter case, the response has status 400 and
  an error body. Otherwise the response has status 200; when the HEAD request completed,
  the body carries the status code, the content type, and \<open>alive\<close>, true exactly when the
  status code is at least 200 and below 400; when the HEAD request failed, timed out or
  could not be set up, the body is \<open>alive: false\<close> alone.
\<close>

theorem server_contract:
  "(\<not> (\<exists>s. target_of q = QStr s \<and> httpPrefixed s)
      \<longrightarrow> statusCode (server head q) = 400 \<and> (\<exists>e. payload (server head q) = ErrorBody e))
   \<and> (\<forall>s. target_of q = QStr s \<and> httpPrefixed s
      \<longrightarrow> statusCode (server head q) = 200
          \<and> (\<forall>st ct. head s = Responded st ct
                \<longrightarrow> payload (server head q) = Full (200 \<le> st \<and> st < 400) st (or_null ct))
          \<and> (head s \<in> {ErrorEvent, TimedOut, SetupThrew}
                \<longrightarrow> payload (server head q) = AliveOnly False))"
proof (intro conjI impI allI)
  assume "\<not> (\<exists>s. target_of q = QStr s \<and> httpPrefixed s)"
  then show "statusCode (server head q) = 400"
    by (auto simp: server_def Let_def split: qval.splits)
next
  assume "\<not> (\<exists>s. target_of q = QStr s \<and> httpPrefixed s)"
  then show "\<exists>e. payload (server head q) = ErrorBody e"
    by (auto simp: server_def Let_def split: qval.splits)
next
  fix s assume h: "target_of q = QStr s \<and> httpPrefixed s"
  then have "s \<noteq> []" by (auto simp: httpPrefixed_def toLowerCase_def)
  with h have run: "server head q = \<lparr>statusCode = 200, payload = doHeadCheck head s\<rparr>"
    by (simp add: server_def Let_def qtruthy_def)
  show "statusCode (server head q) = 200" by (simp add: run)
  {
    fix st ct assume "head s = Responded st ct"
    then show "payload (server head q) = Full (200 \<le> st \<and> st < 400) st (or_null ct)"
      by (simp add: run doHeadCheck_def)
  }
  {
    assume "head s \<in> {ErrorEvent, TimedOut, SetupThrew}"
    then show "payload (server head q) = AliveOnly False"
      by (auto simp: run doHeadCheck_def)
  }
qed

theorem server_contract_witness:
  "statusCode (server okHead aliasQuery) = 200
   \<and> payload (server okHead aliasQuery) = Full True 200 (Some ''image/png'')
   \<and> payload (server (\<lambda>u. TimedOut) aliasQuery) = AliveOnly False
   \<and> statusCode (server okHead \<lparr>q_url = QStr ''ftp://example.com'', q_u = QAbsent\<rparr>) = 400"
proof -
  have t: "target_of aliasQuery = QStr ''http://example.com/a.png''
           \<and> httpPrefixed ''http://example.com/a.png''"
    by (simp add: aliasQuery_def target_of_def qtruthy_def httpPrefixed_example)
  have r: "okHead ''http://example.com/a.png'' = Responded 200 (Some ''image/png'')"
    by (simp add: okHead_def)
  have o: "(\<lambda>u. TimedOut) ''http://example.com/a.png'' \<in> {ErrorEvent, TimedOut, SetupThrew}"
    by simp
  have n: "\<not> (\<exists>s. target_of \<lparr>q_url = QStr ''ftp://example.com'', q_u = QAbsent\<rparr> = QStr s
                  \<and> httpPrefixed s)"
    by (simp add: target_of_def qtruthy_def httpPrefixed_def toLowerCase_def toLowerChar_def)
  have 1: "statusCode (server okHead aliasQuery) = 200"
    using server_contract [of aliasQuery okHead] t by blast
  have 2: "payload (server okHead aliasQuery) = Full (200 \<le> (200::int) \<and> (200::int) < 400) 200 (or_null (Some ''image/png''))"
    using server_contract [of aliasQuery okHead] t r by blast
  have 3: "payload (server (\<lambda>u. TimedOut) aliasQuery) = AliveOnly False"
    using server_contract [of aliasQuery "\<lambda>u. TimedOut"] t o by blast
  have 4: "statusCode (server okHead \<lparr>q_url = QStr ''ftp://example.com'', q_u = QAbsent\<rparr>) = 400"
    using server_contract [of "\<lparr>q_url = QStr ''ftp://example.com'', q_u = QAbsent\<rparr>" okHead] n
    by blast
  from 2 have full: "payload (server okHead aliasQuery) = Full True 200 (Some ''image/png'')"
    by (simp add: or_null_def truthy_def)
  show ?thesis using 1 full 3 4 by simp
qed

section \<open>Length of the result\<close>

lemma length_slice0: "0 \<le> n \<Longrightarrow> length (slice0 xs n) \<le> nat n"
  by (simp add: slice0_def)

lemma length_filtered: "0 \<le> n \<Longrightarrow> length (filtered n vs) \<le> nat n"
  by (simp add: filtered_def length_slice0)

lemma length_groundedPath: "0 \<le> n \<Longrightarrow> length (groundedPath w n tags chunks) \<le> nat n"
  by (simp add: groundedPath_def length_filtered)

lemma length_fallbackPath: "0 \<le> n \<Longrightarrow> length (fallbackPath w n tags) \<le> nat n"
  by (simp add: fallbackPath_def Let_def length_filtered split: reply.splits json.splits)

lemma length_pexResults: "0 \<le> n \<Longrightarrow> pexResults w n = Some r \<Longrightarrow> length r \<le> nat n"
  by (auto simp: pexResults_def length_slice0 split: if_splits option.splits)

text \<open>
  Claim C5. For a requested count \<open>N \<ge> 0\<close>, a list that \<open>findWebInspiration\<close> returns has at
  most \<open>N\<close> entries, whichever of the three paths produced it.
\<close>

theorem result_length_bounded:
  assumes "0 \<le> count" and "fst (findWebInspiration w count) = Inr rs"
  shows "length rs \<le> nat count"
  using assms length_groundedPath [of count w] length_fallbackPath [of count w]
    length_pexResults [of count w]
  by (auto simp: findWebInspiration_def Let_def split: if_splits reply.splits option.splits)

theorem result_length_bounded_witness:
  "length [mapPhoto onePhoto] \<le> nat 1"
proof -
  have a: "(0::int) \<le> 1" by simp
  have b: "fst (findWebInspiration (stockWorld [Some onePhoto, Some onePhoto]) 1) = Inr [mapPhoto onePhoto]"
    by code_simp
  show ?thesis by (rule result_length_bounded [OF a b])
qed

section \<open>The stock-photo stage\<close>

text \<open>
  Claim C6 as stated fails for a requested count of 0: a stock-photo answer without any
  usable photo then has the \<open>min(1, N) = 0\<close> items that the claim asks for, and yet the
  grounded search and the fallback call are made.
\<close>

theorem stock_empty_counterexample:
  "truthy (PEXELS_KEY (stockWorld [])) \<and> min 1 0 \<le> int (length (mapped []))
   \<and> snd (findWebInspiration (stockWorld []) 0) = [Describe, StockPhotos, GroundedSearch, FallbackText]"
  by code_simp

lemma slice0_twice: "0 \<le> n \<Longrightarrow> slice0 (slice0 xs n) n = take (nat n) xs"
  by (simp add: slice0_def)

text \<open>
  Claim C6, amended. If a stock-photo credential is configured and the stock-photo answer
  holds at least one photo that has both a resource URL and a preview URL, then, for a
  requested count \<open>N \<ge> 0\<close>, \<open>findWebInspiration\<close> returns exactly the photos that have both,
  cut to the first \<open>N\<close>, and calls no later stage: the calls made are the image description
  and the stock-photo search.
\<close>

theorem stock_photos_settle:
  assumes "apiReady w" and "describeReply w = Returns text"
    and "truthy (PEXELS_KEY w)" and "pexelsReply w = PexPhotos (map Some ps)"
    and "filter (\<lambda>p. previewUrl p \<noteq> [] \<and> uri p \<noteq> []) (map mapPhoto ps) \<noteq> []"
    and "0 \<le> count"
  shows "findWebInspiration w count
         = (Inr (take (nat count) (filter (\<lambda>p. previewUrl p \<noteq> [] \<and> uri p \<noteq> []) (map mapPhoto ps))),
            [Describe, StockPhotos])"
proof -
  let ?valid = "filter (\<lambda>p. previewUrl p \<noteq> [] \<and> uri p \<noteq> []) (map mapPhoto ps)"
  have m: "mapped (map Some ps) = ?valid"
    by (simp add: mapped_def List.map_filter_def comp_def)
  have "\<not> list_ex (\<lambda>p. p = None) (map Some ps)"
    by (simp add: list_ex_iff)
  then have sp: "searchPexels w count = Some (slice0 ?valid count)"
    using assms(3,4,5) by (simp add: searchPexels_def m)
  have "min 1 count \<le> int (length (slice0 ?valid count))"
  proof (cases "count = 0")
    case True
    then show ?thesis by simp
  next
    case False
    with assms(6) have "1 \<le> nat count" by simp
    moreover from assms(5) have "1 \<le> length ?valid"
      by (cases ?valid) simp_all
    ultimately have "1 \<le> int (length (slice0 ?valid count))"
      using assms(6) by (simp add: slice0_def min_def)
    then show ?thesis by linarith
  qed
  then have "pexResults w count = Some (take (nat count) ?valid)"
    using assms(3,6) sp by (simp add: pexResults_def slice0_twice)
  then show ?thesis
    using assms(1,2,3) by (simp add: findWebInspiration_def Let_def)
qed

theorem stock_photos_settle_witness:
  "findWebInspiration (stockWorld [Some onePhoto, Some onePhoto]) 1
   = (Inr [mapPhoto onePhoto], [Describe, StockPhotos])"
proof -
  have a: "apiReady (stockWorld [Some onePhoto, Some onePhoto])" by code_simp
  have b: "describeReply (stockWorld [Some onePhoto, Some onePhoto]) = Returns (Some ''concrete tower'')"
    by code_simp
  have c: "truthy (PEXELS_KEY (stockWorld [Some onePhoto, Some onePhoto]))" by code_simp
  have d: "pexelsReply (stockWorld [Some onePhoto, Some onePhoto]) = PexPhotos (map Some [onePhoto, onePhoto])"
    by code_simp
  have e: "filter (\<lambda>p. previewUrl p \<noteq> [] \<and> uri p \<noteq> []) (map mapPhoto [onePhoto, onePhoto]) \<noteq> []"
    by code_simp
  have f: "(0::int) \<le> 1" by simp
  have g: "take (nat 1) (filter (\<lambda>p. previewUrl p \<noteq> [] \<and> uri p \<noteq> []) (map mapPhoto [onePhoto, onePhoto]))
      = [mapPhoto onePhoto]" by code_simp
  show ?thesis using stock_photos_settle [OF a b c d e f] by (simp only: g)
qed

section \<open>Errors of the retrieval stages\<close>

text \<open>
  Claim C3 as stated fails: the grounded search call is not guarded, so an error it raises
  after a successful image description reaches the caller, wrapped by the outer handler.
\<close>

theorem search_error_counterexample:
  "apiReady failingSearch \<and> describeReply failingSearch = Returns (Some ''concrete tower'')
   \<and> fst (findWebInspiration failingSearch 3) = Inl (Error ''Failed to find inspiration: quota exceeded'')"
  by code_simp

text \<open>
  Claim C3, amended. If the API is initialised and the image description call succeeds,
  then whatever the stock-photo search and the fallback call do, errors included,
  \<open>findWebInspiration\<close> returns a list whenever the grounded search call returns; an error
  raised by the grounded search call itself, once the stock-photo stage has not settled the
  result, is passed on to the caller in wrapped form.
\<close>

theorem stage_errors:
  assumes "apiReady w" and "describeReply w = Returns text"
  shows "(\<forall>chunks. searchReply w = Returns chunks \<longrightarrow> (\<exists>rs. fst (findWebInspiration w count) = Inr rs))
       \<and> (\<forall>e. searchReply w = Throws e \<and> pexResults w count = None
               \<longrightarrow> fst (findWebInspiration w count) = Inl (rethrow e))"
  using assms by (auto simp: findWebInspiration_def Let_def split: option.splits)

theorem stage_errors_witness:
  "fst (findWebInspiration brokenStages 3) = Inr []
   \<and> fst (findWebInspiration failingSearch 3) = Inl (rethrow (ErrorMsg ''quota exceeded''))"
proof -
  have a: "apiReady brokenStages" by code_simp
  have b: "describeReply brokenStages = Returns (Some ''concrete tower'')" by code_simp
  have c: "searchReply brokenStages = Returns []" by code_simp
  have a': "apiReady failingSearch" by code_simp
  have b': "describeReply failingSearch = Returns (Some ''concrete tower'')" by code_simp
  have c': "searchReply failingSearch = Throws (ErrorMsg ''quota exceeded'')
            \<and> pexResults failingSearch 3 = None" by code_simp
  have "\<exists>rs. fst (findWebInspiration brokenStages 3) = Inr rs"
    using stage_errors [OF a b, of 3] c by blast
  moreover have "\<And>rs. fst (findWebInspiration brokenStages 3) = Inr rs \<Longrightarrow> rs = []"
    by (simp add: findWebInspiration_def brokenStages_def quietWorld_def pexResults_def
        searchPexels_def fallbackPath_def Let_def truthy_def)
  ultimately have 1: "fst (findWebInspiration brokenStages 3) = Inr []" by blast
  have 2: "fst (findWebInspiration failingSearch 3) = Inl (rethrow (ErrorMsg ''quota exceeded''))"
    using stage_errors [OF a' b', of 3] c' by blast
  show ?thesis using 1 2 by simp
qed

section \<open>The liveness block\<close>




section \<open>Distinct uris\<close>

text \<open>
  Claim C1 as stated fails: nothing removes a repeated uri, so two citation chunks for
  the same page are both returned.
\<close>

theorem duplicate_uri_counterexample:
  "map uri (projr (fst (findWebInspiration twiceCited 2)))
   = [''https://example.com/tower'', ''https://example.com/tower'']"
  by code_simp

lemma distinct_map_insort_key:
  "distinct (map g (insort_key f x xs)) \<longleftrightarrow> g x \<notin> g ` set xs \<and> distinct (map g xs)"
  by (induct xs) (auto simp: set_insort_key)

lemma distinct_map_sort_key: "distinct (map g (sort_key f xs)) = distinct (map g xs)"
  by (induct xs) (simp_all add: distinct_map_insort_key)

lemma distinct_map_slice0: "distinct (map g xs) \<Longrightarrow> distinct (map g (slice0 xs n))"
  by (simp add: slice0_def take_map [symmetric] distinct_take)

lemma distinct_filtered:
  "distinct (map g vs) \<Longrightarrow> distinct (map g (filtered n vs))"
  unfolding filtered_def
  by (intro distinct_map_slice0) (simp add: distinct_map_sort_key distinct_map_filter)

lemma uri_validateGrounded [simp]: "uri (v_item (validateGrounded w tm i)) = uri i"
  by (simp add: validateGrounded_def Let_def)

lemma uri_validateFallback [simp]: "uri (v_item (validateFallback w i)) = uri (s_item i)"
  by (simp add: validateFallback_def Let_def)

lemma distinct_groundedPath:
  assumes "distinct (map uri (rawCandidates w chunks))"
  shows "distinct (map uri (groundedPath w n tags chunks))"
proof -
  have "distinct (map (uri \<circ> v_item) (groundedValidated w tags chunks))"
    using assms by (simp add: groundedValidated_def comp_def)
  then have "distinct (map (uri \<circ> v_item) (filtered n (groundedValidated w tags chunks)))"
    by (rule distinct_filtered)
  then show ?thesis by (simp add: groundedPath_def)
qed

lemma distinct_new_Set: "distinct (new_Set xs)"
  by (induct xs) auto

lemma distinct_pushExtra:
  "distinct (map (uri \<circ> s_item) acc) \<Longrightarrow> distinct (map (uri \<circ> s_item) (pushExtra w n u acc))"
  by (auto simp: pushExtra_def list_ex_iff)

lemma distinct_fold_pushExtra:
  "distinct (map (uri \<circ> s_item) acc) \<Longrightarrow> distinct (map (uri \<circ> s_item) (fold (pushExtra w n) us acc))"
  by (induction us arbitrary: acc) (simp_all add: distinct_pushExtra)

lemma distinct_topUp:
  "distinct (map (uri \<circ> s_item) acc) \<Longrightarrow> distinct (map (uri \<circ> s_item) (topUp w n text acc))"
  by (simp add: topUp_def distinct_fold_pushExtra)

lemma distinct_ranked:
  "distinct (map uri is) \<Longrightarrow> distinct (map (uri \<circ> s_item) (ranked w tags is))"
  by (simp add: ranked_def distinct_map_sort_key comp_def)

lemma distinct_fallbackValidated:
  assumes "distinct (map uri (inspirations w rs))"
  shows "distinct (map (uri \<circ> v_item) (fallbackValidated w n tags text rs))"
proof -
  have "distinct (map (uri \<circ> s_item) (topUp w n text (ranked w tags (inspirations w rs))))"
    using assms by (intro distinct_topUp distinct_ranked)
  then show ?thesis by (simp add: fallbackValidated_def comp_def)
qed

lemma uri_fromUrl: "uri (fromRaw w (fromUrl w (u, i))) = u"
  by (simp add: fromRaw_def fromUrl_def noRaw_def or_js_def or_str_def truthy_def)

lemma map_uri_filter:
  "map uri (filter (\<lambda>i. uri i \<noteq> []) ys) = filter (\<lambda>u. u \<noteq> []) (map uri ys)"
  by (induct ys) simp_all

lemma uris_fromUrl: "map uri (map (fromRaw w) (map (fromUrl w) (zip us [0 ..< length us]))) = us"
proof -
  have "map (\<lambda>x. uri (fromRaw w (fromUrl w x))) (zip us [0 ..< length us])
        = map fst (zip us [0 ..< length us])"
    by (rule map_cong) (auto simp: uri_fromUrl)
  then show ?thesis by (simp add: comp_def)
qed

lemma uris_extracted:
  "map uri (inspirations w (extracted w n text))
   = filter (\<lambda>u. u \<noteq> []) (new_Set (slice0 (matchUrls '','' text) n))"
  unfolding inspirations_def extracted_def Let_def map_uri_filter uris_fromUrl ..

lemma distinct_extracted: "distinct (map uri (inspirations w (extracted w n text)))"
  by (simp add: uris_extracted distinct_new_Set)

lemma map_filter_id_Some: "List.map_filter id (map Some xs) = xs"
  by (simp add: List.map_filter_def comp_def)

lemma distinct_fallbackPath:
  assumes "distinct (parsedUris w)"
  shows "distinct (map uri (fallbackPath w n tags))"
proof (cases "fallbackReply w")
  case (Throws e)
  then show ?thesis by (simp add: fallbackPath_def)
next
  case (Returns t)
  let ?text = "textOf t"
  have src: "distinct (map uri (inspirations w (List.map_filter id elems)))"
    if "parsed w n ?text = JArray elems" for elems
  proof (cases "JSON_parse w (jsonText ?text)")
    case None
    with that have "elems = map Some (extracted w n ?text)" by (simp add: parsed_def)
    then show ?thesis by (simp add: map_filter_id_Some distinct_extracted)
  next
    case (Some v)
    with that have "v = JArray elems" by (simp add: parsed_def)
    with Some Returns assms show ?thesis by (simp add: parsedUris_def)
  qed
  show ?thesis
  proof (cases "parsed w n ?text")
    case JOther
    with Returns show ?thesis by (simp add: fallbackPath_def Let_def)
  next
    case (JArray elems)
    have "distinct (map (uri \<circ> v_item)
            (filtered n (fallbackValidated w n tags ?text (List.map_filter id elems))))"
      by (intro distinct_filtered distinct_fallbackValidated src JArray)
    with Returns JArray show ?thesis by (simp add: fallbackPath_def Let_def)
  qed
qed

lemma distinct_pexResults:
  assumes "distinct (stockUris w)" and "pexResults w n = Some r"
  shows "distinct (map uri r)"
proof -
  from assms(2) obtain photos where p: "pexelsReply w = PexPhotos photos"
    and r: "r = slice0 (slice0 (mapped photos) n) n"
    by (auto simp: pexResults_def searchPexels_def split: if_splits option.splits pexels_reply.splits)
  from assms(1) p have "distinct (map uri (mapped photos))" by (simp add: stockUris_def)
  then show ?thesis unfolding r by (intro distinct_map_slice0)
qed

text \<open>
  Claim C1, amended. \<open>findWebInspiration\<close> introduces no repeated uri: if the usable stock
  photos, the usable citation chunks and the parsed fallback array each carry pairwise
  distinct uris, then no two entries of the returned list have the same uri, on every
  return path. The URLs that the function itself extracts from the fallback text are
  freed of repetitions, and a supplementary URL is added only when no candidate has it.
\<close>

theorem uris_stay_distinct:
  assumes "fst (findWebInspiration w count) = Inr rs"
    and "distinct (stockUris w)" and "distinct (citedUris w)" and "distinct (parsedUris w)"
  shows "distinct (map uri rs)"
proof -
  from assms(1) consider
      (stock) "pexResults w count = Some rs"
    | (grounded) tags chunks where "searchReply w = Returns chunks" "rs = groundedPath w count tags chunks"
    | (fallback) tags where "rs = fallbackPath w count tags"
    by (auto simp: findWebInspiration_def Let_def split: if_splits reply.splits option.splits)
  then show ?thesis
  proof cases
    case stock
    with assms(2) show ?thesis by (rule distinct_pexResults)
  next
    case grounded
    with assms(3) have "distinct (map uri (rawCandidates w chunks))" by (simp add: citedUris_def)
    then show ?thesis unfolding grounded(2) by (rule distinct_groundedPath)
  next
    case fallback
    show ?thesis unfolding fallback using assms(4) by (rule distinct_fallbackPath)
  qed
qed

theorem uris_stay_distinct_witness:
  "distinct [''https://a.org/x.png'', ''https://b.org/y.jpg'', ''https://b.org/y.jpg)'']"
proof -
  have a: "fst (findWebInspiration harvestWorld 3) = Inr (projr (fst (findWebInspiration harvestWorld 3)))"
    by code_simp
  have b: "distinct (stockUris harvestWorld)" by code_simp
  have c: "distinct (citedUris harvestWorld)" by code_simp
  have d: "distinct (parsedUris harvestWorld)" by code_simp
  have e: "map uri (projr (fst (findWebInspiration harvestWorld 3)))
           = [''https://a.org/x.png'', ''https://b.org/y.jpg'', ''https://b.org/y.jpg)'']"
    by code_simp
  show ?thesis using uris_stay_distinct [OF a b c d] by (simp only: e)
qed

section \<open>Documents among the results\<close>

text \<open>
  Claim C2 does not hold of the code. A live candidate receives its liveness bonus of 2
  before the PDF test clears its liveness flag, and a score of 2 alone passes the filter:
  a page whose check reports it alive with content type \<open>application/pdf\<close> is validated
  with that content type and is returned.
\<close>

theorem pdf_returned:
  "map v_contentType (groundedValidated pdfWorld [] [Some (page ''https://example.com/report'' ''Annual report'')])
     = [Some ''application/pdf'']
   \<and> isPdf (Some ''application/pdf'')
   \<and> map uri (projr (fst (findWebInspiration pdfWorld 1))) = [''https://example.com/report'']"
  by code_simp

section \<open>The score\<close>


lemma fold_addPart:
  "fold (addPart wt h) ps s
   = s + wt * of_nat (length (filter (\<lambda>p. p \<noteq> [] \<and> str_includes h p) ps))"
  by (induction ps arbitrary: s) (simp_all add: addPart_def algebra_simps)

lemma addTag_tagValue: "addTag wt h tag s = s + tagValue wt h tag"
  by (simp add: addTag_def tagValue_def fold_addPart)

lemma fold_addTag: "fold (addTag wt h) tags s = s + sum_list (map (tagValue wt h) tags)"
  by (induction tags arbitrary: s) (simp_all add: addTag_tagValue algebra_simps)

lemma tagScore_sum: "tagScore wt h tags = sum_list (map (tagValue wt h) tags)"
  by (simp add: tagScore_def fold_addTag)


lemma tagValue_nonneg: "0 \<le> wt \<Longrightarrow> 0 \<le> tagValue wt h tag"
  by (simp add: tagValue_def)

lemma sum_list_subseq_mono:
  fixes f :: "'a \<Rightarrow> rat"
  assumes "subseq xs ys" and "\<And>y. 0 \<le> f y"
  shows "sum_list (map f xs) \<le> sum_list (map f ys)"
  using assms(1)
proof (induction rule: list_emb.induct)
  case (list_emb_Nil ys)
  show ?case using sum_list_nonneg [of "map f ys"] assms(2) by auto
next
  case (list_emb_Cons xs ys y)
  then show ?case using assms(2) [of y] by simp
next
  case (list_emb_Cons2 x y xs ys)
  then show ?case by simp
qed

lemma tagScore_mono:
  assumes "subseq tags tags'" and "0 \<le> wt"
  shows "tagScore wt h (map toLowerCase tags) \<le> tagScore wt h (map toLowerCase tags')"
proof -
  have "subseq (map toLowerCase tags) (map toLowerCase tags')"
    using assms(1) by (rule subseq_map)
  then show ?thesis
    unfolding tagScore_sum by (rule sum_list_subseq_mono) (simp add: tagValue_nonneg assms(2))
qed

text \<open>
  Claim C8. With the candidate, its liveness, its content type and its host fixed, the
  score does not decrease when tags are added to the tag list: if the tag list \<open>tags\<close> is
  obtained from \<open>tags'\<close> by leaving tags out, the score computed with \<open>tags\<close> is at most
  the score computed with \<open>tags'\<close>, in the grounded path and in the fallback path.
\<close>

theorem score_monotone_in_tags:
  assumes "subseq tags tags'"
  shows "v_score (validateGrounded w (map toLowerCase tags) item)
           \<le> v_score (validateGrounded w (map toLowerCase tags') item)
       \<and> v_score (validateFallback w \<lparr>s_item = item, s_score = scoreFor w (map toLowerCase tags) item\<rparr>)
           \<le> v_score (validateFallback w \<lparr>s_item = item, s_score = scoreFor w (map toLowerCase tags') item\<rparr>)"
proof
  have g: "tagScore (1 / 2) (hay item) (map toLowerCase tags)
           \<le> tagScore (1 / 2) (hay item) (map toLowerCase tags')"
    using assms by (rule tagScore_mono) simp
  show "v_score (validateGrounded w (map toLowerCase tags) item)
           \<le> v_score (validateGrounded w (map toLowerCase tags') item)"
    using g by (simp add: validateGrounded_def Let_def)
  have f: "tagScore (6 / 10) (hay item) (map toLowerCase tags)
           \<le> tagScore (6 / 10) (hay item) (map toLowerCase tags')"
    using assms by (rule tagScore_mono) simp
  show "v_score (validateFallback w \<lparr>s_item = item, s_score = scoreFor w (map toLowerCase tags) item\<rparr>)
           \<le> v_score (validateFallback w \<lparr>s_item = item, s_score = scoreFor w (map toLowerCase tags') item\<rparr>)"
    using f by (simp add: validateFallback_def scoreFor_def Let_def)
qed

theorem score_monotone_in_tags_witness:
  "v_score (validateGrounded quietWorld (map toLowerCase [''Concrete'']) concreteItem)
     \<le> v_score (validateGrounded quietWorld
           (map toLowerCase [''Steel frame'', ''Concrete'', ''Apartment Building'']) concreteItem)
   \<and> v_score (validateFallback quietWorld
         \<lparr>s_item = concreteItem,
          s_score = scoreFor quietWorld (map toLowerCase [''Concrete'']) concreteItem\<rparr>)
     \<le> v_score (validateFallback quietWorld
           \<lparr>s_item = concreteItem,
            s_score = scoreFor quietWorld
              (map toLowerCase [''Steel frame'', ''Concrete'', ''Apartment Building'']) concreteItem\<rparr>)"
proof -
  have h: "subseq [''Concrete''] [''Steel frame'', ''Concrete'', ''Apartment Building'']"
    by simp
  show ?thesis by (rule score_monotone_in_tags [OF h])
qed

end
